theory Spec2Isabelle
  imports Complex_Main "HOL-Library.Sublist"
begin

section \<open>Data model\<close>

text \<open>
  Strings are byte strings (\<open>char list\<close>); a Python \<open>str\<close> is represented by its UTF-8
  encoding, on which substring containment agrees with containment on code points.
  The delay is a Python float; it is modelled as a real number and \<open>time.sleep\<close> as
  a call that always returns, so rounding, infinities, NaN and the waits that
  \<open>time.sleep\<close> refuses are outside the model. \<open>max_retries\<close> is a natural number: the
  range of a negative number is empty, as that of 0.
\<close>

text \<open>One element of \<open>Indexers\<close>; \<open>Error\<close> is \<open>indexer.get('Error')\<close>.\<close>

record indexer =
  Error :: "string option"

text \<open>One element of \<open>Results\<close>; the fields are \<open>result.get('Title')\<close> and \<open>result.get('Link')\<close>.\<close>

record search_result =
  Title :: "string option"
  Link :: "string option"

text \<open>The JSON body of a search response; a field is \<open>None\<close> when the key is absent.\<close>

record json_response =
  Indexers :: "indexer list option"
  Results :: "search_result list option"

text \<open>What \<open>bencodepy.decode\<close> returns: integers, byte strings, lists and dictionaries.\<close>

datatype bencode =
  BInt int
| BBytes string
| BList "bencode list"
| BDict "(string \<times> bencode) list"

text \<open>
  What \<open>session.get\<close> does: it raises (timeout, connection failure, invalid URL) or
  returns a response with a status code and a body.
\<close>

datatype 'b http_reply =
  Timeout
| ConnectionError
| Response nat 'b

text \<open>The exceptions that leave a function; \<open>sys.exit(1)\<close> raises \<open>SystemExit 1\<close>.\<close>

datatype error =
  RequestTimeout
| RequestConnectionError
| HTTPError nat
| JSONDecodeError
| SystemExit int

text \<open>The lines written by \<open>console.print\<close>.\<close>

datatype message =
  TooManyRequestsMsg string
| UnknownErrorMsg string
| TorrentErrorMsg "string option"
| RetryWarning real nat nat
| NoMoreRetries
| CredentialsHint
| TooManyResults nat string
| DelayIncreased
| SearchResultsFor string
| FoundMatching
| NoMatchFound
| FoundResults nat
| ResultLine "string option"
| NoResultsFound
| BlankLine

text \<open>
  The observable actions of a run, in order: the search requests as they go on the wire
  (URL and encoded parameters), the descriptor requests, the sleeps, the printed lines
  and the updates of the progress display.
\<close>

datatype event =
  SearchRequest string "(string \<times> string) list"
| TorrentRequest "string option"
| Sleep real
| Print message
| ProgressTask nat
| ProgressUpdate nat nat string
| ProgressAdvance

text \<open>
  The surroundings of the program: the network and the case mapping of the interpreter.
  The reply to a request depends on the request and on how many requests were sent before
  it. The body of a search reply is the value of \<open>response.json()\<close> (\<open>None\<close> when that
  raises); the body of a descriptor reply is the value of
  \<open>bencodepy.decode(response.content)\<close> (\<open>None\<close> when that raises). \<open>str_lower\<close> is
  the method \<open>str.lower\<close>, a function on strings that is not fixed here: what is proved
  for every \<open>env\<close> holds for the case mapping of Unicode, whatever it does to a letter.
\<close>

record env =
  search_get :: "nat \<Rightarrow> string \<Rightarrow> (string \<times> string) list \<Rightarrow> json_response option http_reply"
  torrent_get :: "nat \<Rightarrow> string option \<Rightarrow> bencode option http_reply"
  str_lower :: "string \<Rightarrow> string"

text \<open>
  The fields of the \<open>TrackerSearcher\<close> object (\<open>delay\<close> is the only one assigned after
  construction), the number of requests sent so far and the actions so far.
\<close>

record state =
  api_url :: string
  api_key :: string
  tracker :: string
  delay :: real
  max_retries :: nat
  tick :: nat
  trace :: "event list"

definition emit :: "event list \<Rightarrow> state \<Rightarrow> state" where
  "emit es s = s\<lparr>trace := trace s @ es\<rparr>"

definition sent :: "event \<Rightarrow> state \<Rightarrow> state" where
  "sent e s = s\<lparr>tick := Suc (tick s), trace := trace s @ [e]\<rparr>"

section \<open>Library functions\<close>

text \<open>\<open>urllib.parse.quote_plus\<close> on the UTF-8 bytes of its argument.\<close>

definition always_safe :: "char \<Rightarrow> bool" where
  "always_safe c \<longleftrightarrow>
     c \<in> set ''ABCDEFGHIJKLMNOPQRSTUVWXYZabcdefghijklmnopqrstuvwxyz0123456789_.-~''"

definition hex_digit :: "nat \<Rightarrow> char" where
  "hex_digit n = ''0123456789ABCDEF'' ! (n mod 16)"

definition quote_byte :: "char \<Rightarrow> string" where
  "quote_byte c =
     (if always_safe c then [c]
      else if c = CHR '' '' then ''+''
      else [CHR ''%'', hex_digit (of_char c div 16), hex_digit (of_char c mod 16)])"

definition quote_plus :: "string \<Rightarrow> string" where
  "quote_plus s = concat (map quote_byte s)"

text \<open>
  \<open>requests\<close> builds the query string of a request from \<open>params\<close> with \<open>urlencode\<close>,
  which applies \<open>quote_plus\<close> to every key and every value.
\<close>

definition requests_encode_params :: "(string \<times> string) list \<Rightarrow> (string \<times> string) list" where
  "requests_encode_params params = map (\<lambda>(k, v). (quote_plus k, quote_plus v)) params"

text \<open>\<open>response.raise_for_status()\<close> raises for the status codes 400 to 599.\<close>

definition raise_for_status :: "nat \<Rightarrow> bool" where
  "raise_for_status code \<longleftrightarrow> 400 \<le> code \<and> code < 600"

text \<open>
  What \<open>str.lower\<close> does to a string of ASCII characters: the letters \<open>A\<close> to \<open>Z\<close> are
  mapped to \<open>a\<close> to \<open>z\<close>. It stands for \<open>str_lower\<close> in the example backends, whose
  strings are ASCII.
\<close>

definition lower_char :: "char \<Rightarrow> char" where
  "lower_char c =
     (let n = (of_char c :: nat) in if 65 \<le> n \<and> n \<le> 90 then char_of (n + 32) else c)"

definition ascii_lower :: "string \<Rightarrow> string" where
  "ascii_lower s = map lower_char s"

text \<open>\<open>bytes.decode('utf-8')\<close>: \<open>None\<close> when the bytes are not valid UTF-8.\<close>

definition cont_byte :: "char \<Rightarrow> bool" where
  "cont_byte c \<longleftrightarrow> 128 \<le> (of_char c :: nat) \<and> (of_char c :: nat) \<le> 191"

fun utf8_valid :: "string \<Rightarrow> bool" where
  "utf8_valid [] = True"
| "utf8_valid (c # cs) =
     (let b = (of_char c :: nat) in
      if b < 128 then utf8_valid cs
      else if 194 \<le> b \<and> b \<le> 223 then
        (case cs of c1 # r \<Rightarrow> cont_byte c1 \<and> utf8_valid r | _ \<Rightarrow> False)
      else if 224 \<le> b \<and> b \<le> 239 then
        (case cs of c1 # c2 # r \<Rightarrow>
           cont_byte c1 \<and> cont_byte c2
           \<and> (if b = 224 then 160 \<le> (of_char c1 :: nat) else True)
           \<and> (if b = 237 then (of_char c1 :: nat) \<le> 159 else True)
           \<and> utf8_valid r
         | _ \<Rightarrow> False)
      else if 240 \<le> b \<and> b \<le> 244 then
        (case cs of c1 # c2 # c3 # r \<Rightarrow>
           cont_byte c1 \<and> cont_byte c2 \<and> cont_byte c3
           \<and> (if b = 240 then 144 \<le> (of_char c1 :: nat) else True)
           \<and> (if b = 244 then (of_char c1 :: nat) \<le> 143 else True)
           \<and> utf8_valid r
         | _ \<Rightarrow> False)
      else False)"

definition decode_utf8 :: "string \<Rightarrow> string option" where
  "decode_utf8 bs = (if utf8_valid bs then Some bs else None)"

text \<open>
  The slice \<open>s[:n]\<close> of a string: its first \<open>n\<close> code points, that is the bytes before
  the lead byte of code point \<open>n + 1\<close>.
\<close>

fun take_chars :: "nat \<Rightarrow> string \<Rightarrow> string" where
  "take_chars n [] = []"
| "take_chars n (c # cs) =
     (if cont_byte c then c # take_chars n cs
      else (case n of 0 \<Rightarrow> [] | Suc m \<Rightarrow> c # take_chars m cs))"

section \<open>The searcher\<close>

text \<open>
  \<open>TrackerSearcher(api_url, api_key, tracker, delay)\<close> as \<open>main\<close> constructs it:
  \<open>max_retries\<close> keeps its default of 10; no request has been sent.
\<close>

definition TrackerSearcher :: "string \<Rightarrow> string \<Rightarrow> string \<Rightarrow> real \<Rightarrow> state" where
  "TrackerSearcher url key tr d =
     \<lparr>api_url = url, api_key = key, tracker = tr, delay = d, max_retries = 10,
      tick = 0, trace = []\<rparr>"

subsection \<open>\<open>search_tracker\<close>\<close>

definition search_url :: "state \<Rightarrow> string" where
  "search_url s = api_url s @ ''/api/v2.0/indexers/all/results''"

definition search_params :: "state \<Rightarrow> string \<Rightarrow> (string \<times> string) list" where
  "search_params s query =
     [(''apikey'', api_key s), (''Query'', quote_plus query), (''Tracker[]'', quote_plus (tracker s))]"

text \<open>
  The loop over the indexers: the first \<open>Error\<close> that is truthy (present and not the
  empty string) ends the loop.
\<close>

fun first_error :: "indexer list \<Rightarrow> string option" where
  "first_error [] = None"
| "first_error (ix # rest) =
     (case Error ix of
        Some e \<Rightarrow> if e \<noteq> [] then Some e else first_error rest
      | None \<Rightarrow> first_error rest)"

definition diagnostic :: "string \<Rightarrow> string \<Rightarrow> message" where
  "diagnostic err query =
     (if sublist ''TooManyRequests'' err then TooManyRequestsMsg query else UnknownErrorMsg query)"

text \<open>
  The result is \<open>Inl\<close> an exception that leaves \<open>search_tracker\<close>, \<open>Inr None\<close> for the
  return of \<open>None\<close>, or \<open>Inr (Some rs)\<close> for the returned list of results.
\<close>

definition search_tracker ::
  "env \<Rightarrow> string \<Rightarrow> state \<Rightarrow> (error + search_result list option) \<times> state" where
  "search_tracker env query s =
     (let url = search_url s;
          wire = requests_encode_params (search_params s query);
          s1 = sent (SearchRequest url wire) s
      in case search_get env (tick s) url wire of
           Timeout \<Rightarrow> (Inl RequestTimeout, s1)
         | ConnectionError \<Rightarrow> (Inl RequestConnectionError, s1)
         | Response code body \<Rightarrow>
             if raise_for_status code then (Inl (HTTPError code), s1)
             else (case body of
                     None \<Rightarrow> (Inl JSONDecodeError, s1)
                   | Some json \<Rightarrow>
                       (case first_error (case Indexers json of None \<Rightarrow> [] | Some ixs \<Rightarrow> ixs) of
                          Some err \<Rightarrow> (Inr None, emit [Print (diagnostic err query)] s1)
                        | None \<Rightarrow>
                            (Inr (Some (case Results json of None \<Rightarrow> [] | Some rs \<Rightarrow> rs)), s1))))"

subsection \<open>\<open>get_torrent_name\<close>\<close>

text \<open>\<open>key in x\<close> for a byte-string key; \<open>None\<close> when it raises \<open>TypeError\<close>.\<close>

fun py_in :: "string \<Rightarrow> bencode \<Rightarrow> bool option" where
  "py_in k (BDict d) = Some (k \<in> fst ` set d)"
| "py_in k (BList l) = Some (BBytes k \<in> set l)"
| "py_in k (BBytes b) = Some (sublist k b)"
| "py_in k (BInt n) = None"

text \<open>\<open>x[key]\<close> for a byte-string key; \<open>None\<close> when it raises.\<close>

fun py_getitem :: "bencode \<Rightarrow> string \<Rightarrow> bencode option" where
  "py_getitem (BDict d) k = map_of d k"
| "py_getitem (BList l) k = None"
| "py_getitem (BBytes b) k = None"
| "py_getitem (BInt n) k = None"

text \<open>\<open>x.decode('utf-8')\<close>; only a byte string has the method.\<close>

fun bytes_decode :: "bencode \<Rightarrow> string option" where
  "bytes_decode (BBytes b) = decode_utf8 b"
| "bytes_decode _ = None"

text \<open>
  The body of the \<open>try\<close> block: an exception was raised (and is caught), the path
  \<open>info.name\<close> is absent, or the name is returned.
\<close>

datatype name_outcome = Raised | NoName | Name string

definition torrent_name_of :: "bencode \<Rightarrow> name_outcome" where
  "torrent_name_of torrent_data =
     (case py_in ''info'' torrent_data of
        None \<Rightarrow> Raised
      | Some False \<Rightarrow> NoName
      | Some True \<Rightarrow>
          (case py_getitem torrent_data ''info'' of
             None \<Rightarrow> Raised
           | Some info \<Rightarrow>
               (case py_in ''name'' info of
                  None \<Rightarrow> Raised
                | Some False \<Rightarrow> NoName
                | Some True \<Rightarrow>
                    (case py_getitem info ''name'' of
                       None \<Rightarrow> Raised
                     | Some nm \<Rightarrow>
                         (case bytes_decode nm of None \<Rightarrow> Raised | Some n \<Rightarrow> Name n)))))"

definition parse_torrent_reply :: "bencode option http_reply \<Rightarrow> name_outcome" where
  "parse_torrent_reply reply =
     (case reply of
        Timeout \<Rightarrow> Raised
      | ConnectionError \<Rightarrow> Raised
      | Response code body \<Rightarrow>
          if raise_for_status code then Raised
          else (case body of None \<Rightarrow> Raised | Some torrent_data \<Rightarrow> torrent_name_of torrent_data))"

definition get_torrent_name :: "env \<Rightarrow> string option \<Rightarrow> state \<Rightarrow> string \<times> state" where
  "get_torrent_name env torrent_url s =
     (let s1 = sent (TorrentRequest torrent_url) s
      in case parse_torrent_reply (torrent_get env (tick s) torrent_url) of
           Name n \<Rightarrow> (n, s1)
         | NoName \<Rightarrow> ([], s1)
         | Raised \<Rightarrow> ([], emit [Print (TorrentErrorMsg torrent_url)] s1))"

subsection \<open>\<open>matches_query\<close>\<close>

text \<open>\<open>query.lower() in torrent_name.lower()\<close>; \<open>in\<close> is containment as a contiguous part.\<close>

definition matches_query :: "env \<Rightarrow> string \<Rightarrow> string \<Rightarrow> bool" where
  "matches_query env torrent_name query \<longleftrightarrow>
     sublist (str_lower env query) (str_lower env torrent_name)"

subsection \<open>\<open>search_and_verify\<close>\<close>

text \<open>
  The loop \<open>for attempt in range(self.max_retries)\<close>, over the list of the attempt
  numbers still to come. It returns \<open>raw_results\<close> and \<open>had_errors\<close>.
\<close>

fun retry_loop ::
  "env \<Rightarrow> string \<Rightarrow> nat list \<Rightarrow> bool \<Rightarrow> state
     \<Rightarrow> (error + search_result list option \<times> bool) \<times> state" where
  "retry_loop env query [] had_errors s = (Inr (None, had_errors), s)"
| "retry_loop env query (attempt # rest) had_errors s =
     (case search_tracker env query s of
        (Inl e, s1) \<Rightarrow> (Inl e, s1)
      | (Inr (Some raw_results), s1) \<Rightarrow> (Inr (Some raw_results, had_errors), s1)
      | (Inr None, s1) \<Rightarrow>
          (let retry_delay = max (delay s1) 4 * real (attempt + 1)
           in retry_loop env query rest True
                (emit [Print (RetryWarning retry_delay (attempt + 1) (max_retries s1)),
                       Sleep retry_delay] s1)))"

text \<open>The loop \<open>for result in raw_results\<close>; it returns \<open>results\<close> and \<open>found_match\<close>.\<close>

fun results_loop ::
  "env \<Rightarrow> string \<Rightarrow> search_result list \<Rightarrow> string option list \<Rightarrow> bool \<Rightarrow> state
     \<Rightarrow> (string option list \<times> bool) \<times> state" where
  "results_loop env query [] results found_match s = ((results, found_match), s)"
| "results_loop env query (result # rest) results found_match s =
     (let original_title = Title result;
          link = Link result;
          (torrent_name, s1) = get_torrent_name env link s
      in results_loop env query rest (results @ [original_title])
           (if torrent_name \<noteq> [] \<and> matches_query env torrent_name query then True else found_match)
           s1)"

definition verbose_output :: "string \<Rightarrow> string option list \<Rightarrow> bool \<Rightarrow> event list" where
  "verbose_output query results found_match =
     [Print (SearchResultsFor query)]
     @ (if length results > 0
        then [Print (if found_match then FoundMatching else NoMatchFound),
              Print (FoundResults (length results))]
             @ map (\<lambda>r. Print (ResultLine r)) results
        else [Print NoResultsFound])
     @ [Print BlankLine]"

definition search_and_verify :: "env \<Rightarrow> string \<Rightarrow> bool \<Rightarrow> state \<Rightarrow> (error + bool) \<times> state" where
  "search_and_verify env query verbose s =
     (case retry_loop env query [0..<max_retries s] False s of
        (Inl e, s1) \<Rightarrow> (Inl e, s1)
      | (Inr (None, had_errors), s1) \<Rightarrow>
          (Inl (SystemExit 1), emit [Print NoMoreRetries, Print CredentialsHint] s1)
      | (Inr (Some raw_results, had_errors), s1) \<Rightarrow>
          if length raw_results > 5
          then (Inl (SystemExit 1), emit [Print (TooManyResults (length raw_results) query)] s1)
          else
            (let s2 = (if had_errors
                       then emit [Print DelayIncreased] (s1\<lparr>delay := delay s1 + 1\<rparr>)
                       else s1);
                 ((results, found_match), s3) = results_loop env query raw_results [] False s2;
                 s4 = (if verbose then emit (verbose_output query results found_match) s3 else s3)
             in (Inr found_match, s4)))"

subsection \<open>\<open>search_and_verify_all\<close> and the search of \<open>main\<close>\<close>

text \<open>The loop \<open>for i, item in enumerate(query_items, 1)\<close>; \<open>n\<close> is \<open>len(query_items)\<close>.\<close>

fun verify_items ::
  "env \<Rightarrow> bool \<Rightarrow> nat \<Rightarrow> (nat \<times> string) list \<Rightarrow> string list \<Rightarrow> state
     \<Rightarrow> (error + string list) \<times> state" where
  "verify_items env verbose n [] found s = (Inr found, s)"
| "verify_items env verbose n ((i, item) # rest) found s =
     (let s1 = (if i > 1 \<and> delay s > 0 then emit [Sleep (delay s)] s else s);
          s2 = emit [ProgressUpdate i n (take_chars 50 item)] s1
      in case search_and_verify env item verbose s2 of
           (Inl e, s3) \<Rightarrow> (Inl e, s3)
         | (Inr matched, s3) \<Rightarrow>
             verify_items env verbose n rest (if matched then found @ [item] else found)
               (emit [ProgressAdvance] s3))"

definition search_and_verify_all ::
  "env \<Rightarrow> string list \<Rightarrow> bool \<Rightarrow> state \<Rightarrow> (error + string list) \<times> state" where
  "search_and_verify_all env query_items verbose s =
     verify_items env verbose (length query_items)
       (zip [1..<Suc (length query_items)] query_items) []
       (emit [ProgressTask (length query_items)] s)"

text \<open>
  The comprehension of \<open>main\<close>,
  \<open>[item for item in items if item not in searcher.search_and_verify_all(items, verbose)]\<close>:
  its condition, and with it the call of \<open>search_and_verify_all\<close>, is evaluated for
  every item.
\<close>

fun not_found_loop ::
  "env \<Rightarrow> string list \<Rightarrow> bool \<Rightarrow> string list \<Rightarrow> string list \<Rightarrow> state
     \<Rightarrow> (error + string list) \<times> state" where
  "not_found_loop env items verbose [] not_found s = (Inr not_found, s)"
| "not_found_loop env items verbose (item # rest) not_found s =
     (case search_and_verify_all env items verbose s of
        (Inl e, s1) \<Rightarrow> (Inl e, s1)
      | (Inr found, s1) \<Rightarrow>
          not_found_loop env items verbose rest
            (if item \<notin> set found then not_found @ [item] else not_found) s1)"

definition main_search ::
  "env \<Rightarrow> string list \<Rightarrow> bool \<Rightarrow> state \<Rightarrow> (error + string list) \<times> state" where
  "main_search env items verbose s = not_found_loop env items verbose items [] s"

section \<open>Observations on a trace\<close>

fun torrent_requests :: "event list \<Rightarrow> string option list" where
  "torrent_requests [] = []"
| "torrent_requests (TorrentRequest l # es) = l # torrent_requests es"
| "torrent_requests (_ # es) = torrent_requests es"

fun sleeps :: "event list \<Rightarrow> real list" where
  "sleeps [] = []"
| "sleeps (Sleep d # es) = d # sleeps es"
| "sleeps (_ # es) = sleeps es"

fun search_requests :: "event list \<Rightarrow> (string \<times> (string \<times> string) list) list" where
  "search_requests [] = []"
| "search_requests (SearchRequest u ps # es) = (u, ps) # search_requests es"
| "search_requests (_ # es) = search_requests es"

text \<open>
  What the search sent as the \<open>k\<close>-th request from \<open>s\<close> on returns or raises, and the
  name that \<open>get_torrent_name\<close> returns when its request is the \<open>t\<close>-th of the run.
\<close>

definition search_at :: "env \<Rightarrow> state \<Rightarrow> string \<Rightarrow> nat \<Rightarrow> error + search_result list option" where
  "search_at env s query k = fst (search_tracker env query (s\<lparr>tick := tick s + k\<rparr>))"

definition declared_name :: "env \<Rightarrow> nat \<Rightarrow> string option \<Rightarrow> string" where
  "declared_name env t link =
     (case parse_torrent_reply (torrent_get env t link) of Name n \<Rightarrow> n | _ \<Rightarrow> [])"

text \<open>The fields of the searcher that no function assigns.\<close>

definition frame :: "state \<Rightarrow> state \<Rightarrow> bool" where
  "frame s s' \<longleftrightarrow>
     api_url s' = api_url s \<and> api_key s' = api_key s \<and> tracker s' = tracker s
     \<and> max_retries s' = max_retries s"

text \<open>
  Candidate \<open>i\<close> of the results \<open>raw\<close> passes the test of the loop, when the descriptor of
  the first candidate is the \<open>t\<close>-th request of the run.
\<close>

definition candidate_matches :: "env \<Rightarrow> string \<Rightarrow> nat \<Rightarrow> search_result list \<Rightarrow> nat \<Rightarrow> bool" where
  "candidate_matches env q t raw i \<longleftrightarrow>
     declared_name env (t + i) (Link (raw ! i)) \<noteq> []
     \<and> matches_query env (declared_name env (t + i) (Link (raw ! i))) q"

text \<open>The reply to the search for \<open>query\<close> sent as the \<open>k\<close>-th request from \<open>s\<close> on.\<close>

definition search_reply :: "env \<Rightarrow> state \<Rightarrow> string \<Rightarrow> nat \<Rightarrow> json_response option http_reply" where
  "search_reply env s query k =
     search_get env (tick s + k) (search_url s) (requests_encode_params (search_params s query))"

text \<open>The items announced on the progress display, before each is verified.\<close>

fun progress_updates :: "event list \<Rightarrow> (nat \<times> nat \<times> string) list" where
  "progress_updates [] = []"
| "progress_updates (ProgressUpdate i n d # es) = (i, n, d) # progress_updates es"
| "progress_updates (_ # es) = progress_updates es"

text \<open>
  The exit status of the interpreter when the exception is not caught: the argument of
  \<open>sys.exit\<close>, and 1 after the traceback of any other exception.
\<close>

definition exit_status :: "error \<Rightarrow> int" where
  "exit_status e = (case e of SystemExit n \<Rightarrow> n | _ \<Rightarrow> 1)"

section \<open>Example backends\<close>

text \<open>
  A response without indexer error, a response in which an indexer reports an error, a
  descriptor that declares a name, and a search result with a link.
\<close>

definition ok_body :: "search_result list \<Rightarrow> json_response option http_reply" where
  "ok_body rs = Response 200 (Some \<lparr>Indexers = Some [\<lparr>Error = None\<rparr>], Results = Some rs\<rparr>)"

definition error_body :: "string \<Rightarrow> json_response option http_reply" where
  "error_body err = Response 200 (Some \<lparr>Indexers = Some [\<lparr>Error = Some err\<rparr>], Results = Some []\<rparr>)"

definition descriptor :: "string \<Rightarrow> bencode option http_reply" where
  "descriptor n = Response 200 (Some (BDict [(''info'', BDict [(''name'', BBytes n)])]))"

definition candidate :: "string \<Rightarrow> search_result" where
  "candidate l = \<lparr>Title = Some ''Show S01'', Link = Some l\<rparr>"

text \<open>The searcher of \<open>main\<close> with the default delay of 0.\<close>

definition s0 :: state where
  "s0 = TrackerSearcher ''http://127.0.0.1:9117'' ''KEY'' ''tr'' 0"

text \<open>
  The backend reports a rate limit twice and then returns one result, whose descriptor
  declares a name that contains the query of the examples.
\<close>

definition env_retry :: env where
  "env_retry =
     \<lparr>search_get = (\<lambda>t url ps. if t < 2 then error_body ''TooManyRequests''
                               else ok_body [candidate ''http://t/1'']),
      torrent_get = (\<lambda>t link. descriptor ''Show.S01.GROUP-EXTRA''),
      str_lower = ascii_lower\<rparr>"

text \<open>One result, whose descriptor declares the empty name.\<close>

definition env_empty_name :: env where
  "env_empty_name =
     \<lparr>search_get = (\<lambda>t url ps. ok_body [candidate ''http://t/1'']),
      torrent_get = (\<lambda>t link. descriptor []),
      str_lower = ascii_lower\<rparr>"


text \<open>
  The first request times out, or is answered with status 503; later searches succeed
  with no results.
\<close>

definition env_timeout_once :: env where
  "env_timeout_once =
     \<lparr>search_get = (\<lambda>t url ps. if t = 0 then Timeout else ok_body []),
      torrent_get = (\<lambda>t link. Timeout),
      str_lower = ascii_lower\<rparr>"

definition env_unavailable_once :: env where
  "env_unavailable_once =
     \<lparr>search_get = (\<lambda>t url ps. if t = 0 then Response 503 None else ok_body []),
      torrent_get = (\<lambda>t link. Timeout),
      str_lower = ascii_lower\<rparr>"

text \<open>Six results; an indexer error at every search; no results at every search.\<close>

definition env_six :: env where
  "env_six =
     \<lparr>search_get = (\<lambda>t url ps. ok_body (replicate 6 (candidate ''http://t/1''))),
      torrent_get = (\<lambda>t link. descriptor ''Show.S01.GROUP-EXTRA''),
      str_lower = ascii_lower\<rparr>"

definition env_always_error :: env where
  "env_always_error =
     \<lparr>search_get = (\<lambda>t url ps. error_body ''Connection refused''),
      torrent_get = (\<lambda>t link. descriptor ''Show.S01.GROUP-EXTRA''),
      str_lower = ascii_lower\<rparr>"

definition env_none :: env where
  "env_none =
     \<lparr>search_get = (\<lambda>t url ps. ok_body []),
      torrent_get = (\<lambda>t link. Timeout),
      str_lower = ascii_lower\<rparr>"

section \<open>The loops, step by step\<close>

lemma sleeps_append: "sleeps (xs @ ys) = sleeps xs @ sleeps ys"
  by (induction xs rule: sleeps.induct) simp_all

lemma torrent_requests_append:
  "torrent_requests (xs @ ys) = torrent_requests xs @ torrent_requests ys"
  by (induction xs rule: torrent_requests.induct) simp_all

lemma search_requests_append:
  "search_requests (xs @ ys) = search_requests xs @ search_requests ys"
  by (induction xs rule: search_requests.induct) simp_all

lemma search_at_0: "search_at env s q 0 = fst (search_tracker env q s)"
  by (simp add: search_at_def)

lemma search_at_shift:
  "frame s s2 \<Longrightarrow> tick s2 = Suc (tick s) \<Longrightarrow> search_at env s2 q k = search_at env s q (Suc k)"
  by (simp add: search_at_def search_tracker_def frame_def Let_def search_url_def
      search_params_def split: http_reply.splits option.splits)

lemma search_tracker_state:
  assumes "search_tracker env q s = (r, s1)"
  shows "frame s s1 \<and> delay s1 = delay s \<and> tick s1 = Suc (tick s)
    \<and> sleeps (trace s1) = sleeps (trace s)
    \<and> torrent_requests (trace s1) = torrent_requests (trace s)
    \<and> length (search_requests (trace s1)) = Suc (length (search_requests (trace s)))"
  using assms
  by (auto simp: search_tracker_def frame_def Let_def sent_def emit_def sleeps_append
      torrent_requests_append search_requests_append split: http_reply.splits option.splits if_splits)

lemma frame_refl: "frame s s"
  by (simp add: frame_def)

lemma frame_trans: "frame s s1 \<Longrightarrow> frame s1 s2 \<Longrightarrow> frame s s2"
  by (simp add: frame_def)

lemma frame_emit: "frame s (emit es s)"
  by (simp add: frame_def emit_def)

lemma retry_loop_run:
  assumes "j \<le> length as"
    and "\<forall>k<j. search_at env s q k = Inr None"
    and "j < length as \<longrightarrow> search_at env s q j \<noteq> Inr None"
    and "retry_loop env q as had s = (r, s')"
  shows "frame s s' \<and> delay s' = delay s
    \<and> tick s' = tick s + (if j < length as then Suc j else j)
    \<and> sleeps (trace s') = sleeps (trace s) @ map (\<lambda>a. max (delay s) 4 * real (a + 1)) (take j as)
    \<and> torrent_requests (trace s') = torrent_requests (trace s)
    \<and> length (search_requests (trace s'))
        = length (search_requests (trace s)) + (if j < length as then Suc j else j)
    \<and> r = (if j < length as
           then (case search_at env s q j of Inl e \<Rightarrow> Inl e | Inr x \<Rightarrow> Inr (x, had \<or> 0 < j))
           else Inr (None, had \<or> 0 < j))"
  using assms
proof (induction as arbitrary: j s had)
  case Nil
  then show ?case by (simp add: frame_refl)
next
  case (Cons a as)
  obtain r1 s1 where st: "search_tracker env q s = (r1, s1)"
    by (cases "search_tracker env q s")
  note fr = search_tracker_state [OF st]
  have r1: "search_at env s q 0 = r1"
    using st by (simp add: search_at_0)
  show ?case
  proof (cases j)
    case 0
    with Cons.prems r1 have ne: "r1 \<noteq> Inr None" by simp
    with Cons.prems(4) st have "r = (case r1 of Inl e \<Rightarrow> Inl e | Inr x \<Rightarrow> Inr (x, had)) \<and> s' = s1"
      by (auto split: sum.splits option.splits)
    with 0 fr r1 show ?thesis by (simp split: sum.splits)
  next
    case (Suc j')
    with Cons.prems r1 have none: "r1 = Inr None" by auto
    define s2 where "s2 = emit [Print (RetryWarning (max (delay s1) 4 * real (a + 1)) (a + 1) (max_retries s1)),
                       Sleep (max (delay s1) 4 * real (a + 1))] s1"
    have rec: "retry_loop env q as True s2 = (r, s')"
      using Cons.prems(4) st none by (simp add: s2_def Let_def)
    have fr2: "frame s s2" "tick s2 = Suc (tick s)" "delay s2 = delay s"
      using fr by (simp_all add: s2_def emit_def frame_def)
    have tr2: "sleeps (trace s2) = sleeps (trace s) @ [max (delay s) 4 * real (a + 1)]"
      "torrent_requests (trace s2) = torrent_requests (trace s)"
      "length (search_requests (trace s2)) = Suc (length (search_requests (trace s)))"
      using fr by (simp_all add: s2_def emit_def sleeps_append torrent_requests_append
          search_requests_append)
    have sh: "\<And>k. search_at env s2 q k = search_at env s q (Suc k)"
      using fr2(1,2) by (rule search_at_shift)
    have p1: "j' \<le> length as" using Cons.prems(1) Suc by simp
    have p2: "\<forall>k<j'. search_at env s2 q k = Inr None"
      using Cons.prems(2) Suc by (simp add: sh)
    have p3: "j' < length as \<longrightarrow> search_at env s2 q j' \<noteq> Inr None"
      using Cons.prems(3) Suc by (simp add: sh)
    from Cons.IH [OF p1 p2 p3 rec] fr2 tr2 Suc show ?thesis
      by (auto simp: sh frame_def split: sum.splits)
  qed
qed

lemma get_torrent_name_run:
  assumes "get_torrent_name env link s = (n, s1)"
  shows "n = declared_name env (tick s) link \<and> frame s s1 \<and> delay s1 = delay s
    \<and> tick s1 = Suc (tick s)
    \<and> sleeps (trace s1) = sleeps (trace s)
    \<and> torrent_requests (trace s1) = torrent_requests (trace s) @ [link]
    \<and> search_requests (trace s1) = search_requests (trace s)"
  using assms
  by (auto simp: get_torrent_name_def declared_name_def frame_def Let_def sent_def emit_def
      sleeps_append torrent_requests_append search_requests_append split: name_outcome.splits)

lemma results_loop_run:
  assumes "results_loop env q raw results found s = ((results', found'), s')"
  shows "found' = (found \<or> (\<exists>i<length raw. candidate_matches env q (tick s) raw i))
    \<and> results' = results @ map Title raw
    \<and> frame s s' \<and> delay s' = delay s \<and> tick s' = tick s + length raw
    \<and> sleeps (trace s') = sleeps (trace s)
    \<and> torrent_requests (trace s') = torrent_requests (trace s) @ map Link raw
    \<and> search_requests (trace s') = search_requests (trace s)"
  using assms
proof (induction raw arbitrary: results found s)
  case Nil
  then show ?case by (simp add: frame_refl)
next
  case (Cons r raw)
  obtain n s1 where g: "get_torrent_name env (Link r) s = (n, s1)"
    by (cases "get_torrent_name env (Link r) s")
  note gr = get_torrent_name_run [OF g]
  have rec: "results_loop env q raw (results @ [Title r])
      (if n \<noteq> [] \<and> matches_query env n q then True else found) s1 = ((results', found'), s')"
    using Cons.prems g by (simp add: Let_def)
  have sh: "\<And>i. candidate_matches env q (Suc (tick s)) raw i = candidate_matches env q (tick s) (r # raw) (Suc i)"
    by (simp add: candidate_matches_def)
  have c0: "candidate_matches env q (tick s) (r # raw) 0 = (n \<noteq> [] \<and> matches_query env n q)"
    using gr by (simp add: candidate_matches_def)
  from Cons.IH [OF rec] gr show ?case
    by (auto simp: sh c0 Ex_less_Suc2 frame_def)
qed

lemma backoff_upt:
  "j \<le> n \<Longrightarrow> map (\<lambda>a. d * real (a + 1)) (take j [0..<n]) = map (\<lambda>k. d * real k) [1..<Suc j]"
proof -
  assume "j \<le> n"
  then have "take j [0..<n] = [0..<j]" by simp
  moreover have "map (\<lambda>a. d * real (a + 1)) [0..<j] = map (\<lambda>k. d * real k) (map Suc [0..<j])"
    by simp
  ultimately show ?thesis by (simp only: map_Suc_upt One_nat_def)
qed

lemma leading_failures:
  "\<exists>j\<le>(n::nat). (\<forall>k<j. P k) \<and> (j < n \<longrightarrow> \<not> P j)"
proof (induction n)
  case 0
  then show ?case by simp
next
  case (Suc n)
  then obtain j where j: "j \<le> n" "\<forall>k<j. P k" "j < n \<longrightarrow> \<not> P j" by blast
  show ?case
  proof (cases "j < n \<or> \<not> P n")
    case True
    with j show ?thesis by (intro exI [of _ j]) auto
  next
    case False
    with j have "j = n" "P n" by auto
    with j show ?thesis by (intro exI [of _ "Suc n"]) (auto simp: less_Suc_eq)
  qed
qed

lemma search_and_verify_run:
  assumes "j \<le> max_retries s"
    and "\<forall>k<j. search_at env s q k = Inr None"
    and "j < max_retries s \<longrightarrow> search_at env s q j \<noteq> Inr None"
    and "search_and_verify env q verbose s = (r, s')"
  shows "frame s s'"
    and "sleeps (trace s') = sleeps (trace s) @ map (\<lambda>k. max (delay s) 4 * real k) [1..<Suc j]"
    and "length (search_requests (trace s'))
        = length (search_requests (trace s)) + (if j < max_retries s then Suc j else j)"
    and "j = max_retries s \<Longrightarrow>
        r = Inl (SystemExit 1) \<and> delay s' = delay s
        \<and> torrent_requests (trace s') = torrent_requests (trace s)"
    and "j < max_retries s \<Longrightarrow> search_at env s q j = Inl e \<Longrightarrow>
        r = Inl e \<and> delay s' = delay s
        \<and> torrent_requests (trace s') = torrent_requests (trace s)"
    and "j < max_retries s \<Longrightarrow> search_at env s q j = Inr (Some raw) \<Longrightarrow> 5 < length raw \<Longrightarrow>
        r = Inl (SystemExit 1) \<and> delay s' = delay s
        \<and> torrent_requests (trace s') = torrent_requests (trace s)"
    and "j < max_retries s \<Longrightarrow> search_at env s q j = Inr (Some raw) \<Longrightarrow> length raw \<le> 5 \<Longrightarrow>
        r = Inr (\<exists>i<length raw. candidate_matches env q (tick s + Suc j) raw i)
        \<and> delay s' = (if 0 < j then delay s + 1 else delay s)
        \<and> torrent_requests (trace s') = torrent_requests (trace s) @ map Link raw"
proof -
  obtain r1 s1 where rl: "retry_loop env q [0..<max_retries s] False s = (r1, s1)"
    by (cases "retry_loop env q [0..<max_retries s] False s")
  have a1: "j \<le> length [0..<max_retries s]" using assms(1) by simp
  have a3: "j < length [0..<max_retries s] \<longrightarrow> search_at env s q j \<noteq> Inr None"
    using assms(3) by simp
  note run = retry_loop_run [OF a1 assms(2) a3 rl]
  have fr1: "frame s s1" "delay s1 = delay s"
    "tick s1 = tick s + (if j < max_retries s then Suc j else j)"
    "torrent_requests (trace s1) = torrent_requests (trace s)"
    "length (search_requests (trace s1))
        = length (search_requests (trace s)) + (if j < max_retries s then Suc j else j)"
    using run by simp_all
  have sl1: "sleeps (trace s1) = sleeps (trace s) @ map (\<lambda>k. max (delay s) 4 * real k) [1..<Suc j]"
    using run backoff_upt [OF assms(1), of "max (delay s) 4"] by simp
  have r1: "r1 = (if j < max_retries s
           then (case search_at env s q j of Inl e \<Rightarrow> Inl e | Inr x \<Rightarrow> Inr (x, 0 < j))
           else Inr (None, 0 < j))"
    using run by (simp split: sum.splits)
  have sv: "search_and_verify env q verbose s =
     (case (r1, s1) of
        (Inl e, s1) \<Rightarrow> (Inl e, s1)
      | (Inr (None, had_errors), s1) \<Rightarrow>
          (Inl (SystemExit 1), emit [Print NoMoreRetries, Print CredentialsHint] s1)
      | (Inr (Some raw_results, had_errors), s1) \<Rightarrow>
          if length raw_results > 5
          then (Inl (SystemExit 1), emit [Print (TooManyResults (length raw_results) q)] s1)
          else
            (let s2 = (if had_errors
                       then emit [Print DelayIncreased] (s1\<lparr>delay := delay s1 + 1\<rparr>)
                       else s1);
                 ((results, found_match), s3) = results_loop env q raw_results [] False s2;
                 s4 = (if verbose then emit (verbose_output q results found_match) s3 else s3)
             in (Inr found_match, s4)))"
    by (simp add: search_and_verify_def rl)
  have vo: "\<And>x y z. sleeps (verbose_output x y z) = [] \<and> torrent_requests (verbose_output x y z) = []
      \<and> search_requests (verbose_output x y z) = []"
  proof -
    fix x :: string and y :: "string option list" and z :: bool
    have "sleeps (map (\<lambda>r. Print (ResultLine r)) y) = []
        \<and> torrent_requests (map (\<lambda>r. Print (ResultLine r)) y) = []
        \<and> search_requests (map (\<lambda>r. Print (ResultLine r)) y) = []"
      by (induction y) simp_all
    then show "sleeps (verbose_output x y z) = [] \<and> torrent_requests (verbose_output x y z) = []
      \<and> search_requests (verbose_output x y z) = []"
      by (simp add: verbose_output_def sleeps_append torrent_requests_append search_requests_append)
  qed
  have ok: "frame s s' \<and> sleeps (trace s') = sleeps (trace s1)
       \<and> length (search_requests (trace s')) = length (search_requests (trace s1))
       \<and> r = Inr (\<exists>i<length raw. candidate_matches env q (tick s + Suc j) raw i)
        \<and> delay s' = (if 0 < j then delay s + 1 else delay s)
        \<and> torrent_requests (trace s') = torrent_requests (trace s) @ map Link raw"
    if c: "j < max_retries s" "search_at env s q j = Inr (Some raw)" "length raw \<le> 5" for raw
  proof -
    define s2 where "s2 = (if 0 < j then emit [Print DelayIncreased] (s1\<lparr>delay := delay s1 + 1\<rparr>) else s1)"
    obtain results found s3 where loop: "results_loop env q raw [] False s2 = ((results, found), s3)"
      by (cases "results_loop env q raw [] False s2") auto
    note lr = results_loop_run [OF loop]
    have s2: "frame s s2" "tick s2 = tick s + Suc j" "delay s2 = (if 0 < j then delay s + 1 else delay s)"
      "sleeps (trace s2) = sleeps (trace s1)"
      "torrent_requests (trace s2) = torrent_requests (trace s)"
      "search_requests (trace s2) = search_requests (trace s1)"
      using fr1 c(1) by (simp_all add: s2_def emit_def frame_def sleeps_append
          torrent_requests_append search_requests_append)
    have res: "r = Inr found"
      "s' = (if verbose then emit (verbose_output q results found) s3 else s3)"
      using assms(4) c r1 loop unfolding sv by (simp_all add: s2_def Let_def)
    show ?thesis
      using lr s2 res vo by (simp add: emit_def frame_def sleeps_append
          torrent_requests_append search_requests_append)
  qed
  have bad: "frame s s' \<and> sleeps (trace s') = sleeps (trace s1)
       \<and> length (search_requests (trace s')) = length (search_requests (trace s1))
       \<and> r = Inl (SystemExit 1) \<and> delay s' = delay s
        \<and> torrent_requests (trace s') = torrent_requests (trace s)"
    if c: "j < max_retries s" "search_at env s q j = Inr (Some raw)" "5 < length raw" for raw
    using assms(4) c r1 fr1 unfolding sv
    by (auto simp: emit_def frame_def sleeps_append torrent_requests_append search_requests_append)
  have exn: "frame s s' \<and> sleeps (trace s') = sleeps (trace s1)
       \<and> length (search_requests (trace s')) = length (search_requests (trace s1))
       \<and> r = Inl e \<and> delay s' = delay s
        \<and> torrent_requests (trace s') = torrent_requests (trace s)"
    if c: "j < max_retries s" "search_at env s q j = Inl e" for e
    using assms(4) c r1 fr1 unfolding sv by auto
  have exh: "frame s s' \<and> sleeps (trace s') = sleeps (trace s1)
       \<and> length (search_requests (trace s')) = length (search_requests (trace s1))
       \<and> r = Inl (SystemExit 1) \<and> delay s' = delay s
        \<and> torrent_requests (trace s') = torrent_requests (trace s)"
    if c: "j = max_retries s"
    using assms(4) c r1 fr1 unfolding sv
    by (auto simp: emit_def frame_def sleeps_append torrent_requests_append search_requests_append)
  have all: "frame s s' \<and> sleeps (trace s') = sleeps (trace s1)
       \<and> length (search_requests (trace s')) = length (search_requests (trace s1))"
  proof (cases "j < max_retries s")
    case False
    with assms(1) exh show ?thesis by simp
  next
    case True
    show ?thesis
    proof (cases "search_at env s q j")
      case (Inl e)
      with True exn show ?thesis by simp
    next
      case (Inr x)
      with True assms(3) obtain raw where "search_at env s q j = Inr (Some raw)" by auto
      with True ok [of raw] bad [of raw] show ?thesis by (cases "length raw \<le> 5") simp_all
    qed
  qed
  show "frame s s'" using all by simp
  show "sleeps (trace s') = sleeps (trace s) @ map (\<lambda>k. max (delay s) 4 * real k) [1..<Suc j]"
    using all sl1 by simp
  show "length (search_requests (trace s'))
        = length (search_requests (trace s)) + (if j < max_retries s then Suc j else j)"
    using all fr1 by simp
  show "j = max_retries s \<Longrightarrow>
        r = Inl (SystemExit 1) \<and> delay s' = delay s
        \<and> torrent_requests (trace s') = torrent_requests (trace s)"
    using exh by simp
  show "j < max_retries s \<Longrightarrow> search_at env s q j = Inl e \<Longrightarrow>
        r = Inl e \<and> delay s' = delay s
        \<and> torrent_requests (trace s') = torrent_requests (trace s)"
    using exn by simp
  show "j < max_retries s \<Longrightarrow> search_at env s q j = Inr (Some raw) \<Longrightarrow> 5 < length raw \<Longrightarrow>
        r = Inl (SystemExit 1) \<and> delay s' = delay s
        \<and> torrent_requests (trace s') = torrent_requests (trace s)"
    using bad by simp
  show "j < max_retries s \<Longrightarrow> search_at env s q j = Inr (Some raw) \<Longrightarrow> length raw \<le> 5 \<Longrightarrow>
        r = Inr (\<exists>i<length raw. candidate_matches env q (tick s + Suc j) raw i)
        \<and> delay s' = (if 0 < j then delay s + 1 else delay s)
        \<and> torrent_requests (trace s') = torrent_requests (trace s) @ map Link raw"
    using ok by simp
qed

lemma search_at_exit_status: "search_at env s q k = Inl e \<Longrightarrow> exit_status e = 1"
  by (auto simp: search_at_def search_tracker_def Let_def exit_status_def
      split: http_reply.splits if_splits option.splits)

lemma first_error_some:
  "\<exists>ix\<in>set ixs. \<exists>e. Error ix = Some e \<and> e \<noteq> [] \<Longrightarrow> \<exists>err. first_error ixs = Some err \<and> err \<noteq> []"
  by (induction ixs) (auto split: option.splits)

section \<open>The claims\<close>

subsection \<open>C1: what \<open>search_and_verify\<close> returns\<close>




subsection \<open>C2: how often \<open>main\<close> verifies a query\<close>

text \<open>
  C2 says that one run verifies each query exactly once, in input order. With the two
  items \<open>a\<close> and \<open>b\<close> and a backend that answers every search with no results, the run
  of \<open>main\<close> goes through the items twice: the progress display announces \<open>a\<close>, \<open>b\<close>,
  \<open>a\<close>, \<open>b\<close> and four searches are sent, because the condition of the comprehension calls
  \<open>search_and_verify_all\<close> once for every item.
\<close>

theorem main_verifies_every_query_once_per_item:
  "fst (main_search env_none [''a'', ''b''] False s0) = Inr [''a'', ''b'']
   \<and> progress_updates (trace (snd (main_search env_none [''a'', ''b''] False s0)))
       = [(1, 2, ''a''), (2, 2, ''b''), (1, 2, ''a''), (2, 2, ''b'')]
   \<and> length (search_requests (trace (snd (main_search env_none [''a'', ''b''] False s0)))) = 4"
  by code_simp

subsection \<open>C3: timeouts and HTTP error statuses\<close>

text \<open>
  C3 says that a search attempt ending in a timeout or a non-2xx status is retried under
  the backoff schedule. When the first request times out, or is answered with status 503,
  \<open>search_and_verify\<close> ends with the exception of \<open>session.get\<close> or \<open>raise_for_status\<close>:
  one request was sent and nothing was slept, although the second attempt would have
  succeeded. \<open>search_tracker\<close> does not catch the exception, as \<open>get_torrent_name\<close> does
  around the same two calls, so the retry loop never sees the failure.
\<close>

theorem timeout_and_http_error_escape_retry_loop:
  "search_reply env_timeout_once s0 ''q'' 0 = Timeout
   \<and> search_at env_timeout_once s0 ''q'' 1 = Inr (Some [])
   \<and> fst (search_and_verify env_timeout_once ''q'' False s0) = Inl RequestTimeout
   \<and> length (search_requests (trace (snd (search_and_verify env_timeout_once ''q'' False s0)))) = 1
   \<and> sleeps (trace (snd (search_and_verify env_timeout_once ''q'' False s0))) = []
   \<and> search_reply env_unavailable_once s0 ''q'' 0 = Response 503 None
   \<and> search_at env_unavailable_once s0 ''q'' 1 = Inr (Some [])
   \<and> fst (search_and_verify env_unavailable_once ''q'' False s0) = Inl (HTTPError 503)
   \<and> length (search_requests (trace (snd (search_and_verify env_unavailable_once ''q'' False s0)))) = 1
   \<and> sleeps (trace (snd (search_and_verify env_unavailable_once ''q'' False s0))) = []"
  by code_simp

subsection \<open>C5: more than five results\<close>

text \<open>
  C5: when the successful search of a call returns more than 5 results, \<open>search_and_verify\<close>
  ends with \<open>sys.exit(1)\<close> and has requested no descriptor.
\<close>

theorem too_many_results_abort_before_fetch:
  assumes "j < max_retries s"
    and "\<forall>k<j. search_at env s q k = Inr None"
    and "search_at env s q j = Inr (Some raw)"
    and "5 < length raw"
  shows "fst (search_and_verify env q verbose s) = Inl (SystemExit 1)
    \<and> torrent_requests (trace (snd (search_and_verify env q verbose s)))
        = torrent_requests (trace s)"
proof -
  obtain r s' where sv: "search_and_verify env q verbose s = (r, s')"
    by (cases "search_and_verify env q verbose s")
  have a3: "j < max_retries s \<longrightarrow> search_at env s q j \<noteq> Inr None"
    using assms(3) by simp
  from search_and_verify_run(6)
    [OF less_imp_le [OF assms(1)] assms(2) a3 sv assms(1) assms(3) assms(4)]
  show ?thesis by (simp add: sv)
qed

theorem too_many_results_abort_before_fetch_witness:
  "search_at env_six s0 ''Show'' 0 = Inr (Some (replicate 6 (candidate ''http://t/1'')))
   \<and> fst (search_and_verify env_six ''Show'' False s0) = Inl (SystemExit 1)
   \<and> torrent_requests (trace (snd (search_and_verify env_six ''Show'' False s0))) = []"
proof -
  have h1: "0 < max_retries s0"
    by (simp add: s0_def TrackerSearcher_def)
  have h2: "\<forall>k<0. search_at env_six s0 ''Show'' k = Inr None"
    by simp
  have h3: "search_at env_six s0 ''Show'' 0 = Inr (Some (replicate 6 (candidate ''http://t/1'')))"
    by code_simp
  have h4: "5 < length (replicate 6 (candidate ''http://t/1''))"
    by simp
  have t0: "trace s0 = []"
    by (simp add: s0_def TrackerSearcher_def)
  from too_many_results_abort_before_fetch [OF h1 h2 h3 h4, of False] h3 show ?thesis
    by (simp add: t0)
qed

subsection \<open>C6: all attempts fail\<close>

text \<open>
  C6: when none of the \<open>max_retries\<close> search attempts of a call succeeds,
  \<open>search_and_verify\<close> ends with an exception that terminates the process with exit
  status 1, and no descriptor has been requested. When every attempt failed with an indexer
  error, all \<open>max_retries\<close> searches were sent and the exception is that of
  \<open>sys.exit(1)\<close>.
\<close>

theorem retries_exhausted_abort_before_fetch:
  assumes "\<forall>k<max_retries s. \<forall>raw. search_at env s q k \<noteq> Inr (Some raw)"
  shows "(\<exists>e. fst (search_and_verify env q verbose s) = Inl e \<and> exit_status e = 1)
    \<and> torrent_requests (trace (snd (search_and_verify env q verbose s)))
        = torrent_requests (trace s)
    \<and> ((\<forall>k<max_retries s. search_at env s q k = Inr None) \<longrightarrow>
          fst (search_and_verify env q verbose s) = Inl (SystemExit 1)
          \<and> length (search_requests (trace (snd (search_and_verify env q verbose s))))
              = length (search_requests (trace s)) + max_retries s)"
proof -
  obtain r s' where sv: "search_and_verify env q verbose s = (r, s')"
    by (cases "search_and_verify env q verbose s")
  obtain j where j: "j \<le> max_retries s" "\<forall>k<j. search_at env s q k = Inr None"
      "j < max_retries s \<longrightarrow> search_at env s q j \<noteq> Inr None"
    using leading_failures [of "max_retries s" "\<lambda>k. search_at env s q k = Inr None"] by blast
  note run = search_and_verify_run [OF j sv]
  show ?thesis
  proof (cases "j < max_retries s")
    case False
    with j(1) have "j = max_retries s" by simp
    with run(3) run(4) show ?thesis by (simp add: sv exit_status_def)
  next
    case True
    with j(3) assms obtain e where e: "search_at env s q j = Inl e"
      by (cases "search_at env s q j") auto
    from run(5) [OF True e] True e search_at_exit_status [OF e] show ?thesis
      by (auto simp: sv)
  qed
qed

theorem retries_exhausted_abort_before_fetch_witness:
  "max_retries s0 = 10
   \<and> search_at env_always_error s0 ''q'' 0 = Inr None
   \<and> search_at env_always_error s0 ''q'' 9 = Inr None
   \<and> fst (search_and_verify env_always_error ''q'' False s0) = Inl (SystemExit 1)
   \<and> exit_status (SystemExit 1) = 1
   \<and> torrent_requests (trace (snd (search_and_verify env_always_error ''q'' False s0))) = []
   \<and> length (search_requests (trace (snd (search_and_verify env_always_error ''q'' False s0))))
       = 10"
proof -
  have none: "search_at env_always_error s0 ''q'' k = Inr None" for k
    by (simp add: search_at_def search_tracker_def env_always_error_def error_body_def Let_def
        raise_for_status_def)
  have h: "\<forall>k<max_retries s0. \<forall>raw. search_at env_always_error s0 ''q'' k \<noteq> Inr (Some raw)"
    by (simp add: none)
  have t0: "max_retries s0 = 10" "trace s0 = []"
    by (simp_all add: s0_def TrackerSearcher_def)
  from retries_exhausted_abort_before_fetch [OF h, of False] show ?thesis
    by (simp add: none t0 exit_status_def)
qed

subsection \<open>C8: an error reported by an indexer\<close>

text \<open>
  C8: when the response of a search has some element of \<open>Indexers\<close> with a non-empty
  \<open>Error\<close>, \<open>search_tracker\<close> returns \<open>None\<close>, which is not the empty list returned for a
  response without results. Whether the error text contains \<open>TooManyRequests\<close> decides
  the line that is printed and nothing else: the state after the call and the step that the
  retry loop takes (the warning, the sleep and the next attempt) are the same but for that
  line.
\<close>

theorem indexer_error_returns_none:
  assumes "search_reply env s q 0 = Response code (Some json)"
    and "\<not> raise_for_status code"
    and "Indexers json = Some ixs"
    and "\<exists>ix\<in>set ixs. \<exists>e. Error ix = Some e \<and> e \<noteq> []"
  shows "\<exists>err. first_error ixs = Some err \<and> err \<noteq> []
      \<and> search_tracker env q s
          = (Inr None,
             emit [Print (diagnostic err q)]
               (sent (SearchRequest (search_url s) (requests_encode_params (search_params s q))) s))
      \<and> fst (search_tracker env q s) \<noteq> Inr (Some [])
      \<and> retry_loop env q (attempt # rest) had_errors s
          = retry_loop env q rest True
              (emit [Print (RetryWarning (max (delay s) 4 * real (attempt + 1)) (attempt + 1)
                             (max_retries s)),
                     Sleep (max (delay s) 4 * real (attempt + 1))]
                 (emit [Print (diagnostic err q)]
                    (sent (SearchRequest (search_url s)
                       (requests_encode_params (search_params s q))) s)))"
proof -
  from first_error_some [OF assms(4)] obtain err where
    err: "first_error ixs = Some err" "err \<noteq> []" by blast
  have st: "search_tracker env q s
          = (Inr None,
             emit [Print (diagnostic err q)]
               (sent (SearchRequest (search_url s) (requests_encode_params (search_params s q))) s))"
    using assms(1-3) err by (simp add: search_tracker_def search_reply_def Let_def)
  have "retry_loop env q (attempt # rest) had_errors s
          = retry_loop env q rest True
              (emit [Print (RetryWarning (max (delay s) 4 * real (attempt + 1)) (attempt + 1)
                             (max_retries s)),
                     Sleep (max (delay s) 4 * real (attempt + 1))]
                 (emit [Print (diagnostic err q)]
                    (sent (SearchRequest (search_url s)
                       (requests_encode_params (search_params s q))) s)))"
    by (simp add: st emit_def sent_def Let_def)
  with err st show ?thesis by simp
qed

theorem indexer_error_returns_none_witness:
  "search_reply env_retry s0 ''q'' 0 = error_body ''TooManyRequests''
   \<and> fst (search_tracker env_retry ''q'' s0) = Inr None
   \<and> trace (snd (search_tracker env_retry ''q'' s0))
       = [SearchRequest (search_url s0) (requests_encode_params (search_params s0 ''q'')),
          Print (TooManyRequestsMsg ''q'')]
   \<and> search_reply env_always_error s0 ''q'' 0 = error_body ''Connection refused''
   \<and> fst (search_tracker env_always_error ''q'' s0) = Inr None
   \<and> trace (snd (search_tracker env_always_error ''q'' s0))
       = [SearchRequest (search_url s0) (requests_encode_params (search_params s0 ''q'')),
          Print (UnknownErrorMsg ''q'')]"
proof -
  let ?json = "\<lambda>err. \<lparr>Indexers = Some [\<lparr>Error = Some err\<rparr>], Results = Some []\<rparr>"
  have r1: "search_reply env_retry s0 ''q'' 0 = Response 200 (Some (?json ''TooManyRequests''))"
    by (simp add: search_reply_def env_retry_def error_body_def s0_def TrackerSearcher_def)
  have r2: "search_reply env_always_error s0 ''q'' 0
      = Response 200 (Some (?json ''Connection refused''))"
    by (simp add: search_reply_def env_always_error_def error_body_def)
  have h2: "\<not> raise_for_status 200"
    by (simp add: raise_for_status_def)
  have h3: "Indexers (?json err) = Some [\<lparr>Error = Some err\<rparr>]" for err
    by simp
  have h4: "\<exists>ix\<in>set [\<lparr>Error = Some ''TooManyRequests''\<rparr>]. \<exists>e. Error ix = Some e \<and> e \<noteq> []"
    and h5: "\<exists>ix\<in>set [\<lparr>Error = Some ''Connection refused''\<rparr>]. \<exists>e. Error ix = Some e \<and> e \<noteq> []"
    by simp_all
  have d1: "diagnostic ''TooManyRequests'' ''q'' = TooManyRequestsMsg ''q''"
    and d2: "diagnostic ''Connection refused'' ''q'' = UnknownErrorMsg ''q''"
    by code_simp+
  have t0: "trace s0 = []"
    by (simp add: s0_def TrackerSearcher_def)
  from indexer_error_returns_none [OF r1 h2 h3 h4, of 0 "[]" False]
    indexer_error_returns_none [OF r2 h2 h3 h5, of 0 "[]" False] r1 r2
  show ?thesis
    by (auto simp: d1 d2 t0 emit_def sent_def error_body_def)
qed

subsection \<open>C9: the encoding of the query\<close>

text \<open>
  C9 says that the \<open>Query\<close> parameter of the request is the query encoded exactly once.
  For the query \<open>a b\<close> the value given to \<open>params\<close> is \<open>a+b\<close>, the result of \<open>quote_plus\<close>;
  \<open>session.get\<close> encodes the values of \<open>params\<close> again, so the request carries
  \<open>Query=a%2Bb\<close>, which the backend decodes to \<open>a+b\<close>.
\<close>

theorem query_encoded_twice_on_the_wire:
  "quote_plus ''a b'' = ''a+b''
   \<and> search_params s0 ''a b'' = [(''apikey'', ''KEY''), (''Query'', ''a+b''), (''Tracker[]'', ''tr'')]
   \<and> search_requests (trace (snd (search_tracker env_none ''a b'' s0)))
       = [(''http://127.0.0.1:9117/api/v2.0/indexers/all/results'',
           [(''apikey'', ''KEY''), (''Query'', ''a%2Bb''), (''Tracker%5B%5D'', ''tr'')])]"
  by code_simp

subsection \<open>C10: the empty name\<close>

text \<open>
  C10: a candidate whose extracted name is empty (the descriptor was not fetched or not
  parsed, or has no \<open>info.name\<close>) contributes no match, for any query and so for the
  empty query, which the empty name contains: \<open>search_and_verify\<close> returns true only if
  the extracted name of some candidate is not empty, and returns false when all extracted
  names are empty.
\<close>

theorem empty_name_never_matches:
  assumes "j < max_retries s"
    and "\<forall>k<j. search_at env s q k = Inr None"
    and "search_at env s q j = Inr (Some raw)"
    and "length raw \<le> 5"
  shows "(fst (search_and_verify env q verbose s) = Inr True \<longrightarrow>
           (\<exists>i<length raw. declared_name env (tick s + Suc j + i) (Link (raw ! i)) \<noteq> []))
    \<and> ((\<forall>i<length raw. declared_name env (tick s + Suc j + i) (Link (raw ! i)) = []) \<longrightarrow>
           fst (search_and_verify env q verbose s) = Inr False)"
proof -
  obtain r s' where sv: "search_and_verify env q verbose s = (r, s')"
    by (cases "search_and_verify env q verbose s")
  have a3: "j < max_retries s \<longrightarrow> search_at env s q j \<noteq> Inr None"
    using assms(3) by simp
  from search_and_verify_run(7)
    [OF less_imp_le [OF assms(1)] assms(2) a3 sv assms(1) assms(3) assms(4)]
  show ?thesis by (auto simp: sv candidate_matches_def)
qed

theorem empty_name_never_matches_witness:
  "search_at env_empty_name s0 [] 0 = Inr (Some [candidate ''http://t/1''])
   \<and> declared_name env_empty_name 1 (Some ''http://t/1'') = []
   \<and> matches_query env_empty_name [] []
   \<and> fst (search_and_verify env_empty_name [] False s0) = Inr False"
proof -
  have h1: "0 < max_retries s0"
    by (simp add: s0_def TrackerSearcher_def)
  have h2: "\<forall>k<0. search_at env_empty_name s0 [] k = Inr None"
    by simp
  have h3: "search_at env_empty_name s0 [] 0 = Inr (Some [candidate ''http://t/1''])"
    by code_simp
  have h4: "length [candidate ''http://t/1''] \<le> 5"
    by simp
  have n: "declared_name env_empty_name 1 (Some ''http://t/1'') = []"
    by code_simp
  have m: "matches_query env_empty_name [] []"
    by code_simp
  have t0: "tick s0 = 0"
    by (simp add: s0_def TrackerSearcher_def)
  from empty_name_never_matches [OF h1 h2 h3 h4, of False] h3 n m show ?thesis
    by (simp add: t0 candidate_def)
qed

end
